theory Spec2Isabelle
  imports Complex_Main "HOL-Library.Multiset" "HOL-Library.Log_Nat"
begin

section \<open>The sleep tracker: activity aggregation and gap inference\<close>

text \<open>
  An embedding of \<^verbatim>\<open>scripts/sleep_tracker.py\<close>: the merge, sort and
  de-duplication of the activity timestamps in \<^verbatim>\<open>main\<close>, the gap scan of
  \<^verbatim>\<open>find_sleep_periods\<close>, and the choice of the period reported under
  "Last Night Summary".

  The timestamp sources (recent files, browser history, prefetch, user directories), the
  idle-time query and all printing are outside the model: \<^verbatim>\<open>main\<close> takes the four
  lists the sources return and yields what it would print as a value.
\<close>

subsection \<open>Timestamps\<close>

text \<open>
  Every timestamp in the program is a naive \<^verbatim>\<open>datetime\<close> (local wall-clock time,
  microsecond resolution). It is modelled by the number of microseconds since midnight
  of 0001-01-01, the smallest \<^verbatim>\<open>datetime\<close>. The difference of two of them is a
  \<^verbatim>\<open>timedelta\<close>, a whole number of microseconds, possibly negative.
\<close>

type_synonym datetime = int
type_synonym timedelta = int

definition hour :: "datetime \<Rightarrow> int" where
  "hour t = (t div 3600000000) mod 24"

subsection \<open>Double-precision quotients\<close>

text \<open>
  \<^verbatim>\<open>timedelta.total_seconds()\<close> is the true division of the microseconds by
  \<open>10\<^sup>6\<close>, and \<^verbatim>\<open>gap.total_seconds() / 3600\<close> divides that double by 3600. Both
  divisions return the double (IEEE 754 binary64) nearest to the exact quotient, ties
  going to the even significand. A double is modelled by the rational it denotes.

  \<open>binade q\<close> is the exponent \<open>e\<close> with \<open>2\<^sup>e \<le> \<bar>q\<bar> < 2\<^sup>e\<^sup>+\<^sup>1\<close>; the doubles of that binade are
  the multiples of \<open>2\<^sup>e\<^sup>-\<^sup>5\<^sup>2\<close>, and \<open>round_double\<close> picks the nearest one. The exponent
  is not bounded in the model: the difference of two \<^verbatim>\<open>datetime\<close>s is below \<open>2\<^sup>5\<^sup>9\<close>
  microseconds in magnitude and is zero or at least one microsecond, so the quotients
  of the program stay within the normal doubles, where the model and binary64 agree.

  The threshold \<^verbatim>\<open>min_gap_hours\<close> is the rational value of the number passed (a
  finite double from \<^verbatim>\<open>--gap\<close>, or the integer default 3); Python compares
  numbers by value.
\<close>

definition round_half_even :: "rat \<Rightarrow> int" where
  "round_half_even x =
     (let n = \<lfloor>x\<rfloor>; r = x - of_int n
      in if r < 1 / 2 then n else if 1 / 2 < r then n + 1 else if even n then n else n + 1)"

definition binade :: "rat \<Rightarrow> int" where
  "binade q =
     (let (a, b) = quotient_of \<bar>q\<bar>; e = bitlen a - bitlen b
      in if 2 powi e \<le> \<bar>q\<bar> then e else e - 1)"

definition round_double :: "rat \<Rightarrow> rat" where
  "round_double q =
     (if q = 0 then 0
      else (let ulp = 2 powi (binade q - 52) in of_int (round_half_even (q / ulp)) * ulp))"

text \<open>The quotient \<^verbatim>\<open>x / y\<close> of two numbers as a double, for a non-zero divisor (the
  program divides by the constants \<open>10\<^sup>6\<close> and 3600 only).\<close>

definition float_div :: "rat \<Rightarrow> rat \<Rightarrow> rat" where
  "float_div x y = round_double (x / y)"

definition total_seconds :: "timedelta \<Rightarrow> rat" where
  "total_seconds d = float_div (of_int d) 1000000"

subsection \<open>List indexing\<close>

datatype py_error = IndexError

text \<open>
  The subscription \<^verbatim>\<open>xs[i]\<close> of a Python list of length \<open>n\<close>: an index from
  \<open>0\<close> to \<open>n - 1\<close> reads from the front, one from \<open>-n\<close> to \<open>-1\<close> reads from the
  back, and any other index raises \<^verbatim>\<open>IndexError\<close>.
\<close>

definition getitem :: "'a list \<Rightarrow> int \<Rightarrow> py_error + 'a" where
  "getitem xs i =
     (if 0 \<le> i \<and> i < int (length xs) then Inr (xs ! nat i)
      else if - int (length xs) \<le> i \<and> i < 0 then Inr (xs ! nat (int (length xs) + i))
      else Inl IndexError)"

subsection \<open>The gap detector: \<^verbatim>\<open>find_sleep_periods\<close>\<close>

text \<open>The dictionary appended for every qualifying gap, with its four fixed keys.\<close>

record period =
  sleep_at :: datetime
  wake_at :: datetime
  duration_hours :: rat
  is_likely_sleep :: bool

text \<open>
  One iteration of \<^verbatim>\<open>for i in range(1, len(all_timestamps))\<close>, on the list of
  periods collected so far. \<^verbatim>\<open>sleep_start\<close> and \<^verbatim>\<open>wake_time\<close> read the same two
  entries of the (unchanged) list a second time; the model reuses the values read for
  \<^verbatim>\<open>gap\<close>.
\<close>

definition scan_step :: "datetime list \<Rightarrow> rat \<Rightarrow> period list \<Rightarrow> nat \<Rightarrow> py_error + period list" where
  "scan_step all_timestamps min_gap_hours periods i =
     (case getitem all_timestamps (int i) of
        Inl e \<Rightarrow> Inl e
      | Inr cur \<Rightarrow>
          (case getitem all_timestamps (int i - 1) of
             Inl e \<Rightarrow> Inl e
           | Inr prev \<Rightarrow>
               (let gap = cur - prev;
                    gap_hours = float_div (total_seconds gap) 3600
                in if gap_hours \<ge> min_gap_hours then
                     (let sleep_start = prev;
                          wake_time = cur;
                          start_hour = hour sleep_start;
                          is_night = (start_hour \<ge> 20 \<or> start_hour < 4)
                      in Inr (periods @
                           [\<lparr>sleep_at = sleep_start, wake_at = wake_time,
                             duration_hours = gap_hours, is_likely_sleep = is_night\<rparr>]))
                   else Inr periods)))"

text \<open>The loop over the indices, stopping at the first exception.\<close>

fun scan_loop :: "datetime list \<Rightarrow> rat \<Rightarrow> nat list \<Rightarrow> period list \<Rightarrow> py_error + period list" where
  "scan_loop all_timestamps min_gap_hours [] periods = Inr periods"
| "scan_loop all_timestamps min_gap_hours (i # rest) periods =
     (case scan_step all_timestamps min_gap_hours periods i of
        Inl e \<Rightarrow> Inl e
      | Inr periods' \<Rightarrow> scan_loop all_timestamps min_gap_hours rest periods')"

definition find_sleep_periods :: "datetime list \<Rightarrow> rat \<Rightarrow> py_error + period list" where
  "find_sleep_periods all_timestamps min_gap_hours =
     (if length all_timestamps < 2 then Inr []
      else scan_loop all_timestamps min_gap_hours [1..<length all_timestamps] [])"

subsection \<open>De-duplication (in \<^verbatim>\<open>main\<close>)\<close>

text \<open>
  \<^verbatim>\<open>
  deduped = [all_timestamps[0]]
  for ts in all_timestamps[1:]:
      if (ts - deduped[-1]).total_seconds() > 60:
          deduped.append(ts)
  \<close>
\<close>

definition dedup_step :: "datetime list \<Rightarrow> datetime \<Rightarrow> py_error + datetime list" where
  "dedup_step deduped ts =
     (case getitem deduped (- 1) of
        Inl e \<Rightarrow> Inl e
      | Inr kept \<Rightarrow>
          if total_seconds (ts - kept) > 60 then Inr (deduped @ [ts]) else Inr deduped)"

fun dedup_loop :: "datetime list \<Rightarrow> datetime list \<Rightarrow> py_error + datetime list" where
  "dedup_loop deduped [] = Inr deduped"
| "dedup_loop deduped (ts # rest) =
     (case dedup_step deduped ts of
        Inl e \<Rightarrow> Inl e
      | Inr deduped' \<Rightarrow> dedup_loop deduped' rest)"

definition dedup :: "datetime list \<Rightarrow> py_error + datetime list" where
  "dedup all_timestamps =
     (case getitem all_timestamps 0 of
        Inl e \<Rightarrow> Inl e
      | Inr first \<Rightarrow> dedup_loop [first] (drop 1 all_timestamps))"

subsection \<open>The summary and \<^verbatim>\<open>main\<close>\<close>

text \<open>
  What "Last Night Summary" prints: the stop and resume times of a likely-sleep period,
  those of a "last significant idle period", or "Could not determine sleep pattern."
\<close>

datatype summary = LastSleep period | LastIdle period | Undetermined

definition select_summary :: "period list \<Rightarrow> py_error + summary" where
  "select_summary periods =
     (let night_periods = filter is_likely_sleep periods
      in if night_periods \<noteq> [] then
           (case getitem night_periods (- 1) of
              Inl e \<Rightarrow> Inl e
            | Inr last_sleep \<Rightarrow> Inr (LastSleep last_sleep))
         else if periods \<noteq> [] then
           (case getitem periods (- 1) of
              Inl e \<Rightarrow> Inl e
            | Inr last_idle \<Rightarrow> Inr (LastIdle last_idle))
         else Inr Undetermined)"

text \<open>
  A run either prints "No activity data found!" and returns, or goes on to print the
  de-duplicated timeline (its size, range and heatmap), the detected periods and the
  summary.
\<close>

datatype report = NoActivityData | Analysis "datetime list" "period list" summary

definition main :: "datetime list \<Rightarrow> datetime list \<Rightarrow> datetime list \<Rightarrow> datetime list \<Rightarrow> rat
    \<Rightarrow> py_error + report" where
  "main recent chrome prefetch user_files gap =
     (let all_timestamps = [] @ recent @ chrome @ prefetch @ user_files
      in if all_timestamps = [] then Inr NoActivityData
         else
           (case dedup (sort all_timestamps) of
              Inl e \<Rightarrow> Inl e
            | Inr deduped \<Rightarrow>
                (case find_sleep_periods deduped gap of
                   Inl e \<Rightarrow> Inl e
                 | Inr periods \<Rightarrow>
                     (case select_summary periods of
                        Inl e \<Rightarrow> Inl e
                      | Inr s \<Rightarrow> Inr (Analysis deduped periods s)))))"

section \<open>Auxiliary definitions\<close>

text \<open>
  Notions used to state and prove the properties: the separation in hours of two
  timestamps as the scan computes it (a double) and as it is exactly, the consecutive
  pairs of a list, the test the scan applies to a pair, and the period it appends for a
  pair that passes.
\<close>

definition computed_hours :: "timedelta \<Rightarrow> rat" where
  "computed_hours gap = float_div (total_seconds gap) 3600"

definition exact_hours :: "timedelta \<Rightarrow> rat" where
  "exact_hours gap = of_int gap / 3600000000"

definition qualifies :: "rat \<Rightarrow> datetime \<times> datetime \<Rightarrow> bool" where
  "qualifies min_gap_hours pr = (min_gap_hours \<le> computed_hours (snd pr - fst pr))"

definition mk_period :: "datetime \<times> datetime \<Rightarrow> period" where
  "mk_period pr =
     \<lparr>sleep_at = fst pr, wake_at = snd pr,
      duration_hours = computed_hours (snd pr - fst pr),
      is_likely_sleep = (hour (fst pr) \<ge> 20 \<or> hour (fst pr) < 4)\<rparr>"

definition consecutive_pairs :: "'a list \<Rightarrow> ('a \<times> 'a) list" where
  "consecutive_pairs xs = zip xs (tl xs)"

definition gap_periods :: "datetime list \<Rightarrow> rat \<Rightarrow> period list" where
  "gap_periods ts g = map mk_period (filter (qualifies g) (consecutive_pairs ts))"

text \<open>
  The de-duplication as the specification words it: keep the first timestamp, then walk
  the rest carrying the last timestamp kept, and keep a timestamp only if it lies more
  than 60 seconds (60000000 microseconds, exactly) after that one.
\<close>

fun keep_after :: "datetime \<Rightarrow> datetime list \<Rightarrow> datetime list" where
  "keep_after kept [] = []"
| "keep_after kept (ts # rest) =
     (if ts - kept > 60000000 then ts # keep_after ts rest
      else keep_after kept rest)"

fun dedup_spec :: "datetime list \<Rightarrow> datetime list" where
  "dedup_spec [] = []"
| "dedup_spec (first # rest) = first # keep_after first rest"

section \<open>Properties\<close>

subsection \<open>Rounding to a double\<close>

lemma round_half_even_error: "\<bar>of_int (round_half_even x) - x\<bar> \<le> 1 / 2"
proof -
  have "of_int \<lfloor>x\<rfloor> \<le> x" and "x < of_int \<lfloor>x\<rfloor> + 1"
    by linarith+
  then show ?thesis
    unfolding round_half_even_def Let_def by (auto simp add: abs_le_iff)
qed

lemma bitlen_powi_bounds:
  assumes "0 < a"
  shows "(2::rat) powi (bitlen a - 1) \<le> of_int a" and "of_int a < (2::rat) powi bitlen a"
proof -
  from assms have pos: "1 \<le> bitlen a"
    by (simp add: bitlen_alt_def)
  from bitlen_bounds [OF assms]
  have lo: "(2::int) ^ nat (bitlen a - 1) \<le> a" and hi: "a < (2::int) ^ nat (bitlen a)"
    by simp_all
  from lo have "(of_int ((2::int) ^ nat (bitlen a - 1)) :: rat) \<le> of_int a"
    by (simp only: of_int_le_iff)
  then show "(2::rat) powi (bitlen a - 1) \<le> of_int a"
    using pos by (simp add: power_int_def)
  from hi have "(of_int a :: rat) < of_int ((2::int) ^ nat (bitlen a))"
    by (simp only: of_int_less_iff)
  then show "of_int a < (2::rat) powi bitlen a"
    using pos by (simp add: power_int_def)
qed

text \<open>The binade of a non-zero rational is the integer part of its binary logarithm.\<close>

lemma binade_bounds:
  assumes "q \<noteq> 0"
  shows "2 powi binade q \<le> \<bar>q\<bar>" and "\<bar>q\<bar> < 2 powi (binade q + 1)"
proof -
  obtain a b where ab: "quotient_of \<bar>q\<bar> = (a, b)"
    by (cases "quotient_of \<bar>q\<bar>")
  then have b: "0 < b" and q: "\<bar>q\<bar> = of_int a / of_int b"
    by (simp_all add: quotient_of_denom_pos quotient_of_div)
  from assms have "0 < \<bar>q\<bar>" by simp
  with q b have a: "0 < a"
    by (simp add: zero_less_divide_iff)
  let ?e = "bitlen a - bitlen b"
  note la = bitlen_powi_bounds [OF a] and lb = bitlen_powi_bounds [OF b]
  have bpos: "(0::rat) < of_int b" using b by simp
  have "\<bar>q\<bar> < 2 powi bitlen a / 2 powi (bitlen b - 1)"
    unfolding q using la(2) lb(1) bpos a
    by (intro frac_less) simp_all
  also have "\<dots> = 2 powi (?e + 1)"
    by (simp add: power_int_diff [symmetric] algebra_simps)
  finally have up: "\<bar>q\<bar> < 2 powi (?e + 1)" .
  have "2 powi (bitlen a - 1) / 2 powi bitlen b \<le> \<bar>q\<bar>"
    unfolding q using la(1) lb(2) bpos a
    by (intro frac_le) simp_all
  moreover have "(2::rat) powi (bitlen a - 1) / 2 powi bitlen b = 2 powi (?e - 1)"
    by (simp add: power_int_diff [symmetric] algebra_simps)
  ultimately have low: "2 powi (?e - 1) \<le> \<bar>q\<bar>" by simp
  have bin: "binade q = (if 2 powi ?e \<le> \<bar>q\<bar> then ?e else ?e - 1)"
    by (simp add: binade_def ab)
  show "2 powi binade q \<le> \<bar>q\<bar>"
    using low by (simp add: bin)
  show "\<bar>q\<bar> < 2 powi (binade q + 1)"
    using up by (simp add: bin)
qed

text \<open>Rounding moves a number by at most half a unit in the last place.\<close>

lemma round_double_error: "\<bar>round_double q - q\<bar> \<le> \<bar>q\<bar> / 2 ^ 53"
proof (cases "q = 0")
  case True
  then show ?thesis by (simp add: round_double_def)
next
  case False
  define ulp :: rat where "ulp = 2 powi (binade q - 52)"
  have ulp_pos: "0 < ulp" by (simp add: ulp_def)
  have ulp_eq: "ulp = 2 powi binade q / 2 ^ 52"
    by (simp add: ulp_def power_int_diff)
  have rd: "round_double q = of_int (round_half_even (q / ulp)) * ulp"
    using False by (simp add: round_double_def ulp_def Let_def)
  have "round_double q - q = (of_int (round_half_even (q / ulp)) - q / ulp) * ulp"
    using ulp_pos by (simp add: rd algebra_simps)
  then have "\<bar>round_double q - q\<bar> = \<bar>of_int (round_half_even (q / ulp)) - q / ulp\<bar> * ulp"
    using ulp_pos by (simp add: abs_mult)
  also have "\<dots> \<le> (1 / 2) * ulp"
    using round_half_even_error [of "q / ulp"] ulp_pos
    by (intro mult_right_mono) simp_all
  also have "\<dots> = 2 powi binade q / 2 ^ 53"
    by (simp add: ulp_eq)
  also have "\<dots> \<le> \<bar>q\<bar> / 2 ^ 53"
    using binade_bounds(1) [OF False] by (simp add: divide_right_mono)
  finally show ?thesis .
qed

lemma rel_error_cases:
  fixes r q c :: rat
  assumes "\<bar>r - q\<bar> \<le> \<bar>q\<bar> / c"
  shows "0 \<le> q \<Longrightarrow> q - q / c \<le> r \<and> r \<le> q + q / c"
    and "q \<le> 0 \<Longrightarrow> q + q / c \<le> r \<and> r \<le> q - q / c"
  using assms by (auto simp add: abs_le_iff abs_of_nonneg abs_of_nonpos)

lemma round_double_nonneg:
  assumes "0 \<le> q"
  shows "0 \<le> round_double q"
proof -
  from rel_error_cases(1) [OF round_double_error assms]
  have "q - q / 2 ^ 53 \<le> round_double q" by simp
  with assms show ?thesis by simp
qed

lemma round_double_nonpos:
  assumes "q \<le> 0"
  shows "round_double q \<le> 0"
proof -
  from rel_error_cases(2) [OF round_double_error assms]
  have "round_double q \<le> q - q / 2 ^ 53" by simp
  with assms show ?thesis by simp
qed

lemma total_seconds_error:
  "\<bar>total_seconds d - of_int d / 1000000\<bar> \<le> \<bar>of_int d / 1000000\<bar> / 2 ^ 53"
  unfolding total_seconds_def float_div_def by (rule round_double_error)

lemma total_seconds_60: "total_seconds 60000000 = 60"
  by code_simp

text \<open>The test of the de-duplication is exact: the doubles around 60 are far closer to
  each other than a microsecond.\<close>

lemma total_seconds_gt_60: "60 < total_seconds d \<longleftrightarrow> 60000000 < d"
proof -
  let ?x = "of_int d :: rat"
  note e = total_seconds_error [of d]
  consider "60000001 \<le> d" | "d = 60000000" | "0 \<le> d" "d \<le> 59999999" | "d < 0"
    by linarith
  then show ?thesis
  proof cases
    case 1
    then have x: "60000001 \<le> ?x" by simp
    then have "0 \<le> ?x / 1000000" by simp
    from rel_error_cases(1) [OF e this]
    have "?x / 1000000 - ?x / 1000000 / 2 ^ 53 \<le> total_seconds d" by simp
    with x have "60 < total_seconds d" by simp
    with 1 show ?thesis by simp
  next
    case 2
    then show ?thesis by (simp add: total_seconds_60)
  next
    case 3
    then have x: "0 \<le> ?x" "?x \<le> 59999999" by simp_all
    then have "0 \<le> ?x / 1000000" by simp
    from rel_error_cases(1) [OF e this]
    have "total_seconds d \<le> ?x / 1000000 + ?x / 1000000 / 2 ^ 53" by simp
    with x have "total_seconds d < 60" by simp
    with 3 show ?thesis by simp
  next
    case 4
    then have "total_seconds d \<le> 0"
      by (simp add: total_seconds_def float_div_def round_double_nonpos divide_le_0_iff)
    with 4 show ?thesis by simp
  qed
qed

text \<open>The separation the scan computes has the sign of the exact one, and differs from
  it by a relative \<open>2\<^sup>-\<^sup>5\<^sup>1\<close> at most (two roundings).\<close>

lemma computed_hours_nonneg: "0 \<le> d \<Longrightarrow> 0 \<le> computed_hours d"
  by (simp add: computed_hours_def total_seconds_def float_div_def round_double_nonneg)

lemma computed_hours_nonpos: "d \<le> 0 \<Longrightarrow> computed_hours d \<le> 0"
proof -
  assume "d \<le> 0"
  then have "total_seconds d \<le> 0"
    by (simp add: total_seconds_def float_div_def round_double_nonpos divide_le_0_iff)
  then show ?thesis
    by (simp add: computed_hours_def float_div_def round_double_nonpos divide_le_0_iff)
qed

lemma two_roundings:
  fixes A S D E E1 :: rat
  assumes "E \<le> E1 + D / 3600" and "E1 \<le> S / 3600 / 2 ^ 53" and "S \<le> A + D"
    and "D \<le> A / 2 ^ 53" and "0 \<le> A"
  shows "E \<le> A / 3600 / 2 ^ 51"
  using assms by simp

lemma computed_hours_error:
  "\<bar>computed_hours d - exact_hours d\<bar> \<le> \<bar>exact_hours d\<bar> / 2 ^ 51"
proof -
  define q :: rat where "q = of_int d / 1000000"
  define s where "s = total_seconds d"
  define g where "g = computed_hours d"
  have h: "exact_hours d = q / 3600"
    by (simp add: exact_hours_def q_def)
  have e1: "\<bar>s - q\<bar> \<le> \<bar>q\<bar> / 2 ^ 53"
    unfolding s_def q_def by (rule total_seconds_error)
  have "\<bar>g - s / 3600\<bar> \<le> \<bar>s / 3600\<bar> / 2 ^ 53"
    unfolding g_def computed_hours_def float_div_def s_def by (rule round_double_error)
  then have e2: "\<bar>g - s / 3600\<bar> \<le> \<bar>s\<bar> / 3600 / 2 ^ 53"
    by simp
  have "\<bar>q + (s - q)\<bar> \<le> \<bar>q\<bar> + \<bar>s - q\<bar>"
    by (rule abs_triangle_ineq)
  then have t2: "\<bar>s\<bar> \<le> \<bar>q\<bar> + \<bar>s - q\<bar>" by simp
  have "\<bar>(g - s / 3600) + (s - q) / 3600\<bar> \<le> \<bar>g - s / 3600\<bar> + \<bar>(s - q) / 3600\<bar>"
    by (rule abs_triangle_ineq)
  moreover have "(g - s / 3600) + (s - q) / 3600 = g - q / 3600"
    by (simp add: diff_divide_distrib)
  moreover have "\<bar>(s - q) / 3600\<bar> = \<bar>s - q\<bar> / 3600"
    by simp
  ultimately have t1: "\<bar>g - q / 3600\<bar> \<le> \<bar>g - s / 3600\<bar> + \<bar>s - q\<bar> / 3600"
    by (simp only:)
  have "\<bar>g - q / 3600\<bar> \<le> \<bar>q\<bar> / 3600 / 2 ^ 51"
    by (rule two_roundings [OF t1 e2 t2 e1]) simp
  then show ?thesis by (simp add: h g_def)
qed

subsection \<open>The gap detector as a filter over consecutive pairs\<close>

text \<open>Indexing inside the bounds never raises.\<close>

lemma getitem_nat: "i < length xs \<Longrightarrow> getitem xs (int i) = Inr (xs ! i)"
  by (simp add: getitem_def)

lemma getitem_pred:
  "0 < i \<Longrightarrow> i \<le> length xs \<Longrightarrow> getitem xs (int i - 1) = Inr (xs ! (i - 1))"
  by (auto simp add: getitem_def Let_def nat_diff_distrib' intro: arg_cong [where f = "nth xs"])

lemma getitem_last: "xs \<noteq> [] \<Longrightarrow> getitem xs (- 1) = Inr (last xs)"
  by (cases xs rule: rev_cases) (auto simp add: getitem_def Let_def nat_add_distrib nth_append)

lemma getitem_first: "getitem (x # xs) 0 = Inr x"
  by (simp add: getitem_def)

lemma scan_step_in_range:
  assumes "0 < i" "i < length ts"
  shows "scan_step ts g ps i =
    Inr (ps @ map mk_period (filter (qualifies g) [(ts ! (i - 1), ts ! i)]))"
  using assms
  by (simp add: scan_step_def getitem_nat getitem_pred Let_def qualifies_def mk_period_def
      computed_hours_def)

lemma scan_loop_in_range:
  assumes "\<forall>i \<in> set idxs. 0 < i \<and> i < length ts"
  shows "scan_loop ts g idxs ps =
    Inr (ps @ map mk_period (filter (qualifies g) (map (\<lambda>i. (ts ! (i - 1), ts ! i)) idxs)))"
  using assms
proof (induction idxs arbitrary: ps)
  case Nil
  then show ?case by simp
next
  case (Cons i idxs)
  then have "0 < i" "i < length ts" by simp_all
  then show ?case using Cons by (simp add: scan_step_in_range)
qed

lemma pairs_by_index:
  "map (\<lambda>i. (xs ! (i - Suc 0), xs ! i)) [Suc 0..<length xs] = consecutive_pairs xs"
  unfolding consecutive_pairs_def
  by (rule nth_equalityI) (auto simp add: nth_tl)

lemma consecutive_pairs_short: "length xs < 2 \<Longrightarrow> consecutive_pairs xs = []"
  unfolding consecutive_pairs_def
  by (cases xs) (auto simp add: less_Suc_eq)

lemma find_sleep_periods_eq: "find_sleep_periods ts g = Inr (gap_periods ts g)"
proof (cases "length ts < 2")
  case True
  then show ?thesis
    by (simp add: find_sleep_periods_def gap_periods_def consecutive_pairs_short)
next
  case False
  have "\<forall>i \<in> set [1..<length ts]. 0 < i \<and> i < length ts" by simp
  from scan_loop_in_range [OF this, of g "[]"] False show ?thesis
    by (simp add: find_sleep_periods_def gap_periods_def pairs_by_index)
qed


lemma gap_periods_starts_ends:
  "map (\<lambda>p. (sleep_at p, wake_at p)) (gap_periods ts g) =
     filter (qualifies g) (consecutive_pairs ts)"
  by (simp add: gap_periods_def mk_period_def comp_def)

lemma gap_periods_member:
  assumes "p \<in> set (gap_periods ts g)"
  shows "p = mk_period (sleep_at p, wake_at p) \<and> qualifies g (sleep_at p, wake_at p)
         \<and> (sleep_at p, wake_at p) \<in> set (consecutive_pairs ts)"
  using assms by (auto simp add: gap_periods_def mk_period_def)

lemma count_in_distinct:
  "distinct zs \<Longrightarrow> length (filter (\<lambda>z. z = y) zs) = (if y \<in> set zs then 1 else 0)"
  by (induction zs) auto

lemma gap_periods_count:
  assumes "distinct ts" "Suc i < length ts"
  shows "length (filter (\<lambda>p. sleep_at p = ts ! i \<and> wake_at p = ts ! Suc i) (gap_periods ts g)) =
           (if qualifies g (ts ! i, ts ! Suc i) then 1 else 0)"
proof -
  let ?y = "(ts ! i, ts ! Suc i)"
  have pair: "consecutive_pairs ts ! i = ?y" and len: "i < length (consecutive_pairs ts)"
    using assms(2) by (simp_all add: consecutive_pairs_def nth_tl)
  have d: "distinct (filter (qualifies g) (consecutive_pairs ts))"
    using assms(1) by (simp add: consecutive_pairs_def distinct_zipI1)
  have mem: "?y \<in> set (consecutive_pairs ts)"
    using pair len by (metis nth_mem)
  have "filter (\<lambda>p. sleep_at p = ts ! i \<and> wake_at p = ts ! Suc i) (gap_periods ts g) =
          map mk_period (filter (\<lambda>z. z = ?y) (filter (qualifies g) (consecutive_pairs ts)))"
    by (simp add: gap_periods_def filter_map comp_def mk_period_def prod_eq_iff)
  then have "length (filter (\<lambda>p. sleep_at p = ts ! i \<and> wake_at p = ts ! Suc i) (gap_periods ts g)) =
          length (filter (\<lambda>z. z = ?y) (filter (qualifies g) (consecutive_pairs ts)))"
    by simp
  also have "\<dots> = (if ?y \<in> set (filter (qualifies g) (consecutive_pairs ts)) then 1 else 0)"
    using d by (rule count_in_distinct)
  also have "\<dots> = (if qualifies g ?y then 1 else 0)"
    using mem by simp
  finally show ?thesis .
qed

lemma starts_of_pairs: "map fst (consecutive_pairs xs) = butlast xs"
  by (cases xs) (simp_all add: consecutive_pairs_def map_fst_zip_take butlast_conv_take)

lemma sorted_wrt_butlast_gen: "sorted_wrt R xs \<Longrightarrow> sorted_wrt R (butlast xs)"
  by (induction xs) (auto dest: in_set_butlastD)

lemma gap_periods_starts_sorted:
  assumes "sorted_wrt R ts"
  shows "sorted_wrt R (map sleep_at (gap_periods ts g))"
proof -
  have "map sleep_at (gap_periods ts g) = map fst (filter (qualifies g) (consecutive_pairs ts))"
    by (simp add: gap_periods_def mk_period_def comp_def)
  moreover have "sorted_wrt R (map fst (consecutive_pairs ts))"
    using assms by (simp add: starts_of_pairs sorted_wrt_butlast_gen)
  then have "sorted_wrt R (map fst (filter (qualifies g) (consecutive_pairs ts)))"
    by (simp add: sorted_wrt_map sorted_wrt_filter)
  ultimately show ?thesis by simp
qed

subsection \<open>Gap completeness\<close>

text \<open>
  Claim C2 as the specification states it, with the separation of a pair taken exactly,
  does not hold. With a threshold of 80000000 hours and two timestamps one microsecond
  less than 80000000 hours apart, the seconds of the gap round to 288000000000.0 and
  the hours to 80000000.0: the pair lies below the threshold and yet has a period.
\<close>

theorem C2_gap_completeness_counterexample:
  "exact_hours (287999999999999999 - 0) < 80000000
   \<and> find_sleep_periods [0, 287999999999999999] 80000000 =
       Inr [\<lparr>sleep_at = 0, wake_at = 287999999999999999, duration_hours = 80000000,
              is_likely_sleep = True\<rparr>]"
  by code_simp

text \<open>
  Claim C2, amended. For every timeline and every threshold \<open>g\<close>, the gap detector
  returns normally, and the (start, end) pairs of the periods it returns are, in order,
  exactly the consecutive pairs of the timeline whose separation in hours, as the scan
  computes it in double precision (\<^verbatim>\<open>gap.total_seconds() / 3600\<close>), is at least
  \<open>g\<close>; a computed separation of exactly \<open>g\<close> qualifies. The computed separation is
  within a relative \<open>2\<^sup>-\<^sup>5\<^sup>1\<close> of the exact one. On a timeline (strictly ascending), each
  consecutive pair with computed separation at least \<open>g\<close> therefore has exactly one
  period with its start and end, each consecutive pair with computed separation below
  \<open>g\<close> has none, and the periods are in ascending order of start.
\<close>

theorem C2_gap_completeness:
  "\<exists>ps. find_sleep_periods ts g = Inr ps
     \<and> map (\<lambda>p. (sleep_at p, wake_at p)) ps =
         filter (\<lambda>(a, b). g \<le> float_div (total_seconds (b - a)) 3600) (zip ts (tl ts))
     \<and> (\<forall>a b. \<bar>float_div (total_seconds (b - a)) 3600 - exact_hours (b - a)\<bar>
                 \<le> \<bar>exact_hours (b - a)\<bar> / 2 ^ 51)
     \<and> (sorted_wrt (<) ts \<longrightarrow>
          (\<forall>i. Suc i < length ts \<longrightarrow>
             length (filter (\<lambda>p. sleep_at p = ts ! i \<and> wake_at p = ts ! Suc i) ps) =
               (if g \<le> float_div (total_seconds (ts ! Suc i - ts ! i)) 3600 then 1 else 0))
          \<and> sorted_wrt (<) (map sleep_at ps))"
proof -
  have q: "qualifies g = (\<lambda>(a, b). g \<le> float_div (total_seconds (b - a)) 3600)"
    by (auto simp add: qualifies_def computed_hours_def fun_eq_iff)
  have pairs: "map (\<lambda>p. (sleep_at p, wake_at p)) (gap_periods ts g) =
         filter (\<lambda>(a, b). g \<le> float_div (total_seconds (b - a)) 3600) (zip ts (tl ts))"
    using gap_periods_starts_ends [of ts g] by (simp add: q consecutive_pairs_def)
  have close: "\<forall>a b. \<bar>float_div (total_seconds (b - a)) 3600 - exact_hours (b - a)\<bar>
                 \<le> \<bar>exact_hours (b - a)\<bar> / 2 ^ 51"
    using computed_hours_error by (simp add: computed_hours_def)
  have ordered: "sorted_wrt (<) (map sleep_at (gap_periods ts g))" if "sorted_wrt (<) ts"
    using that by (rule gap_periods_starts_sorted)
  have once: "length (filter (\<lambda>p. sleep_at p = ts ! i \<and> wake_at p = ts ! Suc i) (gap_periods ts g)) =
               (if g \<le> float_div (total_seconds (ts ! Suc i - ts ! i)) 3600 then 1 else 0)"
    if "sorted_wrt (<) ts" "Suc i < length ts" for i
  proof -
    from that(1) have "distinct ts" by (simp add: strict_sorted_iff)
    from gap_periods_count [OF this that(2), of g] show ?thesis
      by (simp add: qualifies_def computed_hours_def)
  qed
  from pairs close ordered once show ?thesis
    using find_sleep_periods_eq [of ts g] by blast
qed

lemma run_boundary:
  "find_sleep_periods [0, 10800000000, 14400000000] 3 =
     Inr [\<lparr>sleep_at = 0, wake_at = 10800000000, duration_hours = 3, is_likely_sleep = True\<rparr>]"
  by code_simp

theorem C2_gap_completeness_witness:
  "sorted_wrt (<) [0, 10800000000, 14400000000 :: int]
   \<and> Suc 0 < length [0, 10800000000, 14400000000 :: int]
   \<and> find_sleep_periods [0, 10800000000, 14400000000] 3 =
       Inr [\<lparr>sleep_at = 0, wake_at = 10800000000, duration_hours = 3, is_likely_sleep = True\<rparr>]"
  using C2_gap_completeness [of "[0, 10800000000, 14400000000]" 3] run_boundary
  by simp

subsection \<open>Classification of a period\<close>

text \<open>
  Claim C4. Every period the gap detector returns is labelled likely sleep exactly when
  the hour of its start is at least 20 or less than 4, that is, when the hour lies in
  \<open>[20, 24) \<union> [0, 4)\<close>, and is labelled otherwise for every other hour. The label is a
  function of the period's own start alone: a period of any run, on any timeline and
  threshold, that starts at the same instant carries the same label.
\<close>

theorem C4_classification:
  assumes "find_sleep_periods ts g = Inr ps" and "p \<in> set ps"
  shows "is_likely_sleep p = (hour (sleep_at p) \<ge> 20 \<or> hour (sleep_at p) < 4)
       \<and> (is_likely_sleep p \<longleftrightarrow> hour (sleep_at p) \<in> {20..<24} \<union> {0..<4})
       \<and> (\<forall>ts' g' ps' p'. find_sleep_periods ts' g' = Inr ps' \<and> p' \<in> set ps'
              \<and> sleep_at p' = sleep_at p \<longrightarrow> is_likely_sleep p' = is_likely_sleep p)"
proof -
  have label: "is_likely_sleep q = (hour (sleep_at q) \<ge> 20 \<or> hour (sleep_at q) < 4)"
    if "find_sleep_periods us h = Inr qs" "q \<in> set qs" for us h qs q
  proof -
    from that have "q \<in> set (gap_periods us h)"
      by (simp add: find_sleep_periods_eq)
    then have "q = mk_period (sleep_at q, wake_at q)"
      by (simp add: gap_periods_member)
    then have "is_likely_sleep q = is_likely_sleep (mk_period (sleep_at q, wake_at q))"
      by simp
    then show ?thesis by (simp add: mk_period_def)
  qed
  have range: "0 \<le> hour t \<and> hour t < 24" for t
    by (simp add: hour_def)
  have "is_likely_sleep p = (hour (sleep_at p) \<ge> 20 \<or> hour (sleep_at p) < 4)"
    using assms by (rule label)
  moreover from this have "is_likely_sleep p \<longleftrightarrow> hour (sleep_at p) \<in> {20..<24} \<union> {0..<4}"
    using range [of "sleep_at p"] by auto
  moreover have "is_likely_sleep p' = is_likely_sleep p"
    if "find_sleep_periods ts' g' = Inr ps'" "p' \<in> set ps'" "sleep_at p' = sleep_at p"
    for ts' g' ps' p'
    using label [OF that(1,2)] label [OF assms] that(3) by simp
  ultimately show ?thesis by blast
qed

lemma run_evening:
  "find_sleep_periods [72000000000, 100800000000, 126000000000] 3 =
     Inr [\<lparr>sleep_at = 72000000000, wake_at = 100800000000, duration_hours = 8,
            is_likely_sleep = True\<rparr>,
          \<lparr>sleep_at = 100800000000, wake_at = 126000000000, duration_hours = 7,
            is_likely_sleep = False\<rparr>]"
  by code_simp

theorem C4_classification_witness:
  "find_sleep_periods [72000000000, 100800000000, 126000000000] 3 =
     Inr [\<lparr>sleep_at = 72000000000, wake_at = 100800000000, duration_hours = 8,
            is_likely_sleep = True\<rparr>,
          \<lparr>sleep_at = 100800000000, wake_at = 126000000000, duration_hours = 7,
            is_likely_sleep = False\<rparr>]
   \<and> hour 72000000000 = 20 \<and> hour 100800000000 = 4"
  using C4_classification [of "[72000000000, 100800000000, 126000000000]" 3
      "[\<lparr>sleep_at = 72000000000, wake_at = 100800000000, duration_hours = 8,
            is_likely_sleep = True\<rparr>,
        \<lparr>sleep_at = 100800000000, wake_at = 126000000000, duration_hours = 7,
            is_likely_sleep = False\<rparr>]"
      "\<lparr>sleep_at = 72000000000, wake_at = 100800000000, duration_hours = 8,
            is_likely_sleep = True\<rparr>"]
    run_evening
  by (simp add: hour_def)

subsection \<open>Short timelines\<close>

text \<open>
  Claim C7. On a timeline with fewer than two entries (empty, or a single timestamp) the
  gap detector returns the empty period sequence, and raises nothing.
\<close>

theorem C7_short_timeline:
  "length ts < 2 \<Longrightarrow> find_sleep_periods ts g = Inr []"
  by (simp add: find_sleep_periods_def)

theorem C7_short_timeline_witness:
  "length [28800000000 :: int] < 2 \<and> find_sleep_periods [28800000000] 3 = Inr []
   \<and> length ([] :: int list) < 2 \<and> find_sleep_periods [] 3 = Inr []"
  using C7_short_timeline [of "[28800000000]" 3] C7_short_timeline [of "[]" 3]
  by simp

subsection \<open>The invariant of a period\<close>

text \<open>
  Claim C9 as the specification states it, with the duration equal to the difference of
  end and start, does not hold: for two timestamps 3 hours and one microsecond apart and
  a threshold of 3 hours, the duration stored is the double 3.000000000277778, which is
  not the exact difference in hours.
\<close>

theorem C9_period_invariant_counterexample:
  "(0 :: rat) < 3
   \<and> find_sleep_periods [0, 10800000001] 3 =
       Inr [\<lparr>sleep_at = 0, wake_at = 10800000001,
              duration_hours = 1688849860420311 / 562949953421312, is_likely_sleep = True\<rparr>]
   \<and> (1688849860420311 / 562949953421312 :: rat) \<noteq> exact_hours (10800000001 - 0)"
  by code_simp

text \<open>
  Claim C9, amended. For a positive threshold \<open>g\<close>, every period the gap detector
  returns ends after it starts, has as duration the double
  \<^verbatim>\<open>gap.total_seconds() / 3600\<close> of the difference of its end and its start, which
  is within a relative \<open>2\<^sup>-\<^sup>5\<^sup>1\<close> of that difference in hours, and has a duration of
  at least \<open>g\<close>. This holds on every list of timestamps, sorted or not.
\<close>

theorem C9_period_invariant:
  assumes "find_sleep_periods ts g = Inr ps" and "0 < g" and "p \<in> set ps"
  shows "sleep_at p < wake_at p
       \<and> duration_hours p = float_div (total_seconds (wake_at p - sleep_at p)) 3600
       \<and> \<bar>duration_hours p - exact_hours (wake_at p - sleep_at p)\<bar>
            \<le> exact_hours (wake_at p - sleep_at p) / 2 ^ 51
       \<and> g \<le> duration_hours p"
proof -
  let ?gap = "wake_at p - sleep_at p"
  from assms(1,3) have "p \<in> set (gap_periods ts g)"
    by (simp add: find_sleep_periods_eq)
  then have shape: "p = mk_period (sleep_at p, wake_at p)"
    and q: "qualifies g (sleep_at p, wake_at p)"
    by (simp_all add: gap_periods_member)
  from shape have "duration_hours p = duration_hours (mk_period (sleep_at p, wake_at p))"
    by simp
  then have d: "duration_hours p = computed_hours ?gap"
    by (simp add: mk_period_def)
  from q d have ge: "g \<le> duration_hours p"
    by (simp add: qualifies_def)
  with assms(2) d have "0 < computed_hours ?gap" by simp
  then have pos: "0 < ?gap"
    using computed_hours_nonpos [of ?gap] by (cases "0 < ?gap") simp_all
  then have "0 \<le> exact_hours ?gap"
    by (simp add: exact_hours_def)
  with computed_hours_error [of ?gap] d
  have "\<bar>duration_hours p - exact_hours ?gap\<bar> \<le> exact_hours ?gap / 2 ^ 51"
    by (simp only: abs_of_nonneg)
  with pos d ge show ?thesis
    by (simp add: computed_hours_def)
qed

lemma run_night:
  "find_sleep_periods [82800000000, 108000000000] 3 =
     Inr [\<lparr>sleep_at = 82800000000, wake_at = 108000000000, duration_hours = 7,
            is_likely_sleep = True\<rparr>]"
  by code_simp

lemma hours_night: "float_div (total_seconds (108000000000 - 82800000000)) 3600 = 7"
  by code_simp

theorem C9_period_invariant_witness:
  "find_sleep_periods [82800000000, 108000000000] 3 =
     Inr [\<lparr>sleep_at = 82800000000, wake_at = 108000000000, duration_hours = 7,
            is_likely_sleep = True\<rparr>]
   \<and> (0 :: rat) < 3
   \<and> (82800000000 :: int) < 108000000000
   \<and> (7 :: rat) = float_div (total_seconds (108000000000 - 82800000000)) 3600
   \<and> (3 :: rat) \<le> 7"
  using C9_period_invariant [of "[82800000000, 108000000000]" 3
      "[\<lparr>sleep_at = 82800000000, wake_at = 108000000000, duration_hours = 7,
            is_likely_sleep = True\<rparr>]"
      "\<lparr>sleep_at = 82800000000, wake_at = 108000000000, duration_hours = 7,
            is_likely_sleep = True\<rparr>"]
    run_night hours_night
  by simp

subsection \<open>A non-positive threshold\<close>

lemma sorted_pairs_nonneg:
  "sorted ts \<Longrightarrow> pr \<in> set (consecutive_pairs ts) \<Longrightarrow> fst pr \<le> snd pr"
  unfolding consecutive_pairs_def
  by (auto simp add: in_set_conv_nth nth_tl sorted_iff_nth_Suc)

text \<open>
  Claim C10. On a sorted list of at least two timestamps and with a threshold
  \<open>g \<le> 0\<close>, \<^verbatim>\<open>find_sleep_periods\<close> returns normally one period for every
  consecutive pair, in order: \<open>length ts - 1\<close> periods in all, neither an error nor an
  empty sequence.
\<close>

theorem C10_nonpositive_gap:
  assumes "sorted ts" and "2 \<le> length ts" and "g \<le> 0"
  shows "\<exists>ps. find_sleep_periods ts g = Inr ps \<and> length ps = length ts - 1
           \<and> map (\<lambda>p. (sleep_at p, wake_at p)) ps = zip ts (tl ts)"
proof -
  have "qualifies g pr" if "pr \<in> set (consecutive_pairs ts)" for pr
  proof -
    from sorted_pairs_nonneg [OF assms(1) that]
    have "0 \<le> computed_hours (snd pr - fst pr)"
      by (simp add: computed_hours_nonneg)
    with assms(3) show ?thesis by (simp add: qualifies_def)
  qed
  then have all: "filter (qualifies g) (consecutive_pairs ts) = consecutive_pairs ts"
    by (simp add: filter_id_conv)
  have "length (gap_periods ts g) = length (consecutive_pairs ts)"
    by (simp add: gap_periods_def all)
  then have "length (gap_periods ts g) = length ts - 1"
    by (simp add: consecutive_pairs_def)
  moreover have "map (\<lambda>p. (sleep_at p, wake_at p)) (gap_periods ts g) = consecutive_pairs ts"
    by (simp add: gap_periods_starts_ends all)
  then have "map (\<lambda>p. (sleep_at p, wake_at p)) (gap_periods ts g) = zip ts (tl ts)"
    by (simp add: consecutive_pairs_def)
  ultimately show ?thesis
    by (simp add: find_sleep_periods_eq)
qed

lemma run_negative_threshold:
  "find_sleep_periods [0, 60000001, 120000002] (- 1) =
       Inr [\<lparr>sleep_at = 0, wake_at = 60000001,
              duration_hours = 2401919841296261 / 144115188075855872,
              is_likely_sleep = True\<rparr>,
            \<lparr>sleep_at = 60000001, wake_at = 120000002,
              duration_hours = 2401919841296261 / 144115188075855872,
              is_likely_sleep = True\<rparr>]"
  by code_simp

theorem C10_nonpositive_gap_witness:
  "sorted [0, 60000001, 120000002 :: int] \<and> 2 \<le> length [0, 60000001, 120000002 :: int]
   \<and> (- 1 :: rat) \<le> 0
   \<and> find_sleep_periods [0, 60000001, 120000002] (- 1) =
       Inr [\<lparr>sleep_at = 0, wake_at = 60000001,
              duration_hours = 2401919841296261 / 144115188075855872,
              is_likely_sleep = True\<rparr>,
            \<lparr>sleep_at = 60000001, wake_at = 120000002,
              duration_hours = 2401919841296261 / 144115188075855872,
              is_likely_sleep = True\<rparr>]"
  using C10_nonpositive_gap [of "[0, 60000001, 120000002]" "- 1"] run_negative_threshold
  by simp

subsection \<open>De-duplication\<close>

text \<open>The loop of \<^verbatim>\<open>main\<close> never raises on a non-empty list, and computes
  \<open>dedup_spec\<close>.\<close>

lemma dedup_loop_eq:
  "deduped \<noteq> [] \<Longrightarrow>
     dedup_loop deduped rest = Inr (deduped @ keep_after (last deduped) rest)"
proof (induction rest arbitrary: deduped)
  case Nil
  then show ?case by simp
next
  case (Cons ts rest)
  show ?case
  proof (cases "ts - last deduped > 60000000")
    case True
    with Cons.prems have "dedup_step deduped ts = Inr (deduped @ [ts])"
      by (simp add: dedup_step_def getitem_last total_seconds_gt_60)
    then show ?thesis
      using True Cons.IH [of "deduped @ [ts]"] by simp
  next
    case False
    with Cons.prems have "dedup_step deduped ts = Inr deduped"
      by (simp add: dedup_step_def getitem_last total_seconds_gt_60)
    then show ?thesis
      using False Cons.IH [OF Cons.prems] by simp
  qed
qed

lemma dedup_eq: "ts \<noteq> [] \<Longrightarrow> dedup ts = Inr (dedup_spec ts)"
  by (cases ts) (simp_all add: dedup_def getitem_first dedup_loop_eq)

lemma dedup_empty: "dedup [] = Inl IndexError"
  by (simp add: dedup_def getitem_def)

lemma keep_after_spaced:
  "successively (\<lambda>a b. 60000000 < b - a) (kept # keep_after kept rest)"
  by (induction rest arbitrary: kept) simp_all

lemma dedup_spec_nonempty: "ts \<noteq> [] \<Longrightarrow> dedup_spec ts \<noteq> []"
  by (cases ts) simp_all

text \<open>
  Claim C3. On every non-empty list of timestamps (sorted or not) the de-duplication pass
  returns normally; it keeps the first timestamp and then each later timestamp only if
  it lies more than 60 seconds after the last timestamp kept (not after the last one
  seen); and any two consecutive entries of its output are more than 60 seconds, that
  is more than 60000000 microseconds, apart. The test of the program on the double
  \<^verbatim>\<open>total_seconds()\<close> decides exactly this.
\<close>

theorem C3_dedup_spacing:
  "\<exists>out. dedup (first # rest) = Inr out
     \<and> out = first # keep_after first rest
     \<and> (\<forall>i. Suc i < length out \<longrightarrow> 60000000 < out ! Suc i - out ! i)"
proof -
  have "dedup (first # rest) = Inr (first # keep_after first rest)"
    using dedup_eq [of "first # rest"] by simp
  moreover have "60000000 < (first # keep_after first rest) ! Suc i
      - (first # keep_after first rest) ! i"
    if "Suc i < length (first # keep_after first rest)" for i
    using keep_after_spaced [of first rest] that
    unfolding successively_conv_nth by blast
  ultimately show ?thesis by blast
qed

theorem C3_dedup_spacing_witness:
  "dedup [0, 40000000, 80000000, 140000000, 140000001] = Inr [0, 80000000, 140000001]
   \<and> Suc 0 < length [0, 80000000, 140000001 :: int]
   \<and> 60000000 < [0, 80000000, 140000001 :: int] ! Suc 0 - [0, 80000000, 140000001] ! 0"
  using C3_dedup_spacing [of 0 "[40000000, 80000000, 140000000, 140000001]"]
  by simp

subsection \<open>The whole run\<close>

lemma select_summary_eq:
  "select_summary ps =
     Inr (if filter is_likely_sleep ps \<noteq> [] then LastSleep (last (filter is_likely_sleep ps))
          else if ps \<noteq> [] then LastIdle (last ps) else Undetermined)"
  by (simp add: select_summary_def Let_def getitem_last)

lemma main_eq:
  "main recent chrome prefetch user_files g =
     (let all_timestamps = recent @ chrome @ prefetch @ user_files
      in if all_timestamps = [] then Inr NoActivityData
         else (let timeline = dedup_spec (sort all_timestamps);
                   periods = gap_periods timeline g
               in case select_summary periods of
                    Inl e \<Rightarrow> Inl e
                  | Inr s \<Rightarrow> Inr (Analysis timeline periods s)))"
proof -
  define a where "a = recent @ chrome @ prefetch @ user_files"
  have unfolded: "main recent chrome prefetch user_files g =
      (if a = [] then Inr NoActivityData
       else (case dedup (sort a) of
               Inl e \<Rightarrow> Inl e
             | Inr deduped \<Rightarrow>
                 (case find_sleep_periods deduped g of
                    Inl e \<Rightarrow> Inl e
                  | Inr periods \<Rightarrow>
                      (case select_summary periods of
                         Inl e \<Rightarrow> Inl e
                       | Inr s \<Rightarrow> Inr (Analysis deduped periods s)))))"
    unfolding main_def a_def Let_def by simp
  have "dedup (sort a) = Inr (dedup_spec (sort a))" if "a \<noteq> []"
  proof -
    from that have "sort a \<noteq> []"
      by (metis length_sort length_0_conv)
    then show ?thesis by (rule dedup_eq)
  qed
  then have "main recent chrome prefetch user_files g =
      (if a = [] then Inr NoActivityData
       else (case select_summary (gap_periods (dedup_spec (sort a)) g) of
               Inl e \<Rightarrow> Inl e
             | Inr s \<Rightarrow>
                 Inr (Analysis (dedup_spec (sort a)) (gap_periods (dedup_spec (sort a)) g) s)))"
    unfolding unfolded by (simp add: find_sleep_periods_eq)
  then show ?thesis
    unfolding a_def Let_def .
qed

lemma sort_mset_cong: "mset xs = mset ys \<Longrightarrow> sort xs = sort ys"
  by (metis properties_for_sort mset_sort sorted_sort)

text \<open>
  Claim C8. Two runs whose four sources hold, together, the same multiset of timestamps,
  however split among the sources and in whatever order, give the same result for the
  same threshold: the same outcome "no activity data", or the same timeline, the same
  period sequence with the same labels, and the same summary.
\<close>

theorem C8_determinism:
  assumes "mset (recent @ chrome @ prefetch @ user_files) =
           mset (recent' @ chrome' @ prefetch' @ user_files')"
  shows "main recent chrome prefetch user_files g = main recent' chrome' prefetch' user_files' g"
proof -
  let ?a = "recent @ chrome @ prefetch @ user_files"
  let ?b = "recent' @ chrome' @ prefetch' @ user_files'"
  from assms have "sort ?a = sort ?b" by (rule sort_mset_cong)
  moreover from assms have "(?a = []) = (?b = [])"
    by (metis mset_zero_iff)
  ultimately show ?thesis
    unfolding main_eq Let_def by (simp only:)
qed


theorem C8_determinism_witness:
  "mset ([28800000000, 82800000000] @ [28830000000, 108000000000] @ [] @ []) =
   mset ([28830000000] @ [] @ [28800000000, 82800000000, 108000000000 :: int] @ [])
   \<and> main [28800000000, 82800000000] [28830000000, 108000000000] [] [] 3 =
     main [28830000000] [] [28800000000, 82800000000, 108000000000] [] 3"
proof -
  have m: "mset ([28800000000, 82800000000] @ [28830000000, 108000000000] @ [] @ []) =
   mset ([28830000000] @ [] @ [28800000000, 82800000000, 108000000000 :: int] @ [])"
    by (simp add: add_mset_commute)
  from m C8_determinism [OF m, of 3] show ?thesis by blast
qed

subsection \<open>The summary\<close>

text \<open>
  Claim C5. If some period is labelled likely sleep, the summary reports the last such
  period of the sequence; otherwise, if there is a period at all, it reports the last
  period. For the periods the gap detector returns on a sorted timeline the last
  likely-sleep period is the one of highest start among the likely-sleep periods. In
  particular, of three periods starting at 08:00 (away), 23:00 (sleep) and 23:30 the
  next day (sleep), whatever their ends and durations, the third is reported.
\<close>

theorem C5_summary_selection:
  "(filter is_likely_sleep ps \<noteq> [] \<longrightarrow>
      select_summary ps = Inr (LastSleep (last (filter is_likely_sleep ps))))
   \<and> (filter is_likely_sleep ps = [] \<and> ps \<noteq> [] \<longrightarrow>
      select_summary ps = Inr (LastIdle (last ps)))
   \<and> (\<forall>ts g. sorted ts \<and> find_sleep_periods ts g = Inr ps \<longrightarrow>
        (\<forall>q \<in> set ps. is_likely_sleep q \<longrightarrow>
           sleep_at q \<le> sleep_at (last (filter is_likely_sleep ps))))
   \<and> (\<forall>e1 d1 e2 d2 e3 d3.
        select_summary
          [\<lparr>sleep_at = 28800000000, wake_at = e1, duration_hours = d1, is_likely_sleep = False\<rparr>,
           \<lparr>sleep_at = 82800000000, wake_at = e2, duration_hours = d2, is_likely_sleep = True\<rparr>,
           \<lparr>sleep_at = 171000000000, wake_at = e3, duration_hours = d3, is_likely_sleep = True\<rparr>]
        = Inr (LastSleep
           \<lparr>sleep_at = 171000000000, wake_at = e3, duration_hours = d3, is_likely_sleep = True\<rparr>))"
proof -
  have "sleep_at q \<le> sleep_at (last (filter is_likely_sleep ps))"
    if "sorted ts" "find_sleep_periods ts g = Inr ps" "q \<in> set ps" "is_likely_sleep q"
    for ts g q
  proof -
    let ?night = "filter is_likely_sleep ps"
    from that(2) have "ps = gap_periods ts g"
      by (simp add: find_sleep_periods_eq)
    with that(1) have "sorted (map sleep_at ps)"
      by (simp add: gap_periods_starts_sorted)
    then have s: "sorted (map sleep_at ?night)"
      by (rule sorted_filter)
    from that(3,4) have mem: "q \<in> set ?night" by simp
    from that(3,4) have ne: "?night \<noteq> []"
      by (auto simp add: filter_empty_conv)
    then have "?night = butlast ?night @ [last ?night]" by simp
    then have "sorted (map sleep_at (butlast ?night @ [last ?night]))"
      using s by simp
    then have "\<forall>x \<in> set (butlast ?night). sleep_at x \<le> sleep_at (last ?night)"
      by (simp add: sorted_append)
    moreover from mem ne have "q \<in> set (butlast ?night) \<or> q = last ?night"
      by (metis Un_iff append_butlast_last_id insert_iff list.set(2) set_append empty_iff list.set(1))
    ultimately show ?thesis by auto
  qed
  then have recency: "\<forall>ts g. sorted ts \<and> find_sleep_periods ts g = Inr ps \<longrightarrow>
        (\<forall>q \<in> set ps. is_likely_sleep q \<longrightarrow>
           sleep_at q \<le> sleep_at (last (filter is_likely_sleep ps)))"
    by blast
  have tier1: "filter is_likely_sleep ps \<noteq> [] \<longrightarrow>
      select_summary ps = Inr (LastSleep (last (filter is_likely_sleep ps)))"
    by (simp add: select_summary_eq)
  have tier2: "filter is_likely_sleep ps = [] \<and> ps \<noteq> [] \<longrightarrow>
      select_summary ps = Inr (LastIdle (last ps))"
    by (simp add: select_summary_eq)
  have ladder: "\<forall>e1 d1 e2 d2 e3 d3.
        select_summary
          [\<lparr>sleep_at = 28800000000, wake_at = e1, duration_hours = d1, is_likely_sleep = False\<rparr>,
           \<lparr>sleep_at = 82800000000, wake_at = e2, duration_hours = d2, is_likely_sleep = True\<rparr>,
           \<lparr>sleep_at = 171000000000, wake_at = e3, duration_hours = d3, is_likely_sleep = True\<rparr>]
        = Inr (LastSleep
           \<lparr>sleep_at = 171000000000, wake_at = e3, duration_hours = d3, is_likely_sleep = True\<rparr>)"
    by (simp add: select_summary_eq)
  show ?thesis
    by (rule conjI [OF tier1 conjI [OF tier2 conjI [OF recency ladder]]])
qed

lemma run_day_and_night:
  "find_sleep_periods [28800000000, 82800000000, 108000000000] 3 =
       Inr [\<lparr>sleep_at = 28800000000, wake_at = 82800000000, duration_hours = 15, is_likely_sleep = False\<rparr>,
            \<lparr>sleep_at = 82800000000, wake_at = 108000000000, duration_hours = 7, is_likely_sleep = True\<rparr>]"
  by code_simp

theorem C5_summary_selection_witness:
  "select_summary
     [\<lparr>sleep_at = 28800000000, wake_at = 82800000000, duration_hours = 15, is_likely_sleep = False\<rparr>,
      \<lparr>sleep_at = 82800000000, wake_at = 115200000000, duration_hours = 9, is_likely_sleep = True\<rparr>,
      \<lparr>sleep_at = 171000000000, wake_at = 194400000000, duration_hours = 13 / 2, is_likely_sleep = True\<rparr>]
   = Inr (LastSleep
      \<lparr>sleep_at = 171000000000, wake_at = 194400000000, duration_hours = 13 / 2, is_likely_sleep = True\<rparr>)
   \<and> select_summary
     [\<lparr>sleep_at = 28800000000, wake_at = 43200000000, duration_hours = 4, is_likely_sleep = False\<rparr>,
      \<lparr>sleep_at = 43200000000, wake_at = 64800000000, duration_hours = 6, is_likely_sleep = False\<rparr>]
   = Inr (LastIdle
      \<lparr>sleep_at = 43200000000, wake_at = 64800000000, duration_hours = 6, is_likely_sleep = False\<rparr>)
   \<and> sorted [28800000000, 82800000000, 108000000000 :: int]
   \<and> find_sleep_periods [28800000000, 82800000000, 108000000000] 3 =
       Inr [\<lparr>sleep_at = 28800000000, wake_at = 82800000000, duration_hours = 15, is_likely_sleep = False\<rparr>,
            \<lparr>sleep_at = 82800000000, wake_at = 108000000000, duration_hours = 7, is_likely_sleep = True\<rparr>]"
  using
    C5_summary_selection [of
     "[\<lparr>sleep_at = 28800000000, wake_at = 82800000000, duration_hours = 15, is_likely_sleep = False\<rparr>,
      \<lparr>sleep_at = 82800000000, wake_at = 115200000000, duration_hours = 9, is_likely_sleep = True\<rparr>,
      \<lparr>sleep_at = 171000000000, wake_at = 194400000000, duration_hours = 13 / 2, is_likely_sleep = True\<rparr>]"]
    C5_summary_selection [of
     "[\<lparr>sleep_at = 28800000000, wake_at = 43200000000, duration_hours = 4, is_likely_sleep = False\<rparr>,
      \<lparr>sleep_at = 43200000000, wake_at = 64800000000, duration_hours = 6, is_likely_sleep = False\<rparr>]"]
    C5_summary_selection [of
     "[\<lparr>sleep_at = 28800000000, wake_at = 82800000000, duration_hours = 15, is_likely_sleep = False\<rparr>,
       \<lparr>sleep_at = 82800000000, wake_at = 108000000000, duration_hours = 7, is_likely_sleep = True\<rparr>]"]
    run_day_and_night
  by simp

subsection \<open>Concrete runs\<close>

text \<open>
  Claim C1 as the specification states it, with the period from 23:00 to 06:00 as the
  only period, does not hold for the events 08:00, 08:00:30, 23:00 and 06:00 the next
  day and a threshold of 3 hours: the timeline is as stated, the period sequence is not.
\<close>

theorem C1_single_source_counterexample:
  "\<not> (dedup (sort [28800000000, 28830000000, 82800000000, 108000000000]) =
         Inr [28800000000, 82800000000, 108000000000]
       \<and> find_sleep_periods [28800000000, 82800000000, 108000000000] 3 =
         Inr [\<lparr>sleep_at = 82800000000, wake_at = 108000000000, duration_hours = 7,
                is_likely_sleep = True\<rparr>])"
  by code_simp

text \<open>
  Claim C1, amended. For the events 08:00, 08:00:30, 23:00 and 06:00 the next day and a
  threshold of 3 hours, the de-duplication drops 08:00:30 and yields the timeline
  [08:00, 23:00, 06:00 next day]; the gap detector returns two periods, from 08:00 to
  23:00 (15 hours, not likely sleep) and from 23:00 to 06:00 the next day (7 hours,
  likely sleep); and the run with these events in one source reports that timeline,
  these two periods, and the second of them as the summary.
\<close>

theorem C1_single_source_scenario:
  "dedup (sort [28800000000, 28830000000, 82800000000, 108000000000]) =
     Inr [28800000000, 82800000000, 108000000000]
   \<and> find_sleep_periods [28800000000, 82800000000, 108000000000] 3 =
     Inr [\<lparr>sleep_at = 28800000000, wake_at = 82800000000, duration_hours = 15,
            is_likely_sleep = False\<rparr>,
          \<lparr>sleep_at = 82800000000, wake_at = 108000000000, duration_hours = 7,
            is_likely_sleep = True\<rparr>]
   \<and> main [28800000000, 28830000000, 82800000000, 108000000000] [] [] [] 3 =
     Inr (Analysis [28800000000, 82800000000, 108000000000]
           [\<lparr>sleep_at = 28800000000, wake_at = 82800000000, duration_hours = 15,
              is_likely_sleep = False\<rparr>,
            \<lparr>sleep_at = 82800000000, wake_at = 108000000000, duration_hours = 7,
              is_likely_sleep = True\<rparr>]
           (LastSleep \<lparr>sleep_at = 82800000000, wake_at = 108000000000, duration_hours = 7,
              is_likely_sleep = True\<rparr>))"
  by code_simp

text \<open>
  Claim C6 as the specification states it does not hold: with no timestamp at all the
  run does not reach the summary, so it does not report an empty timeline, an empty
  period sequence and an undetermined pattern.
\<close>

theorem C6_empty_input_counterexample:
  "main [] [] [] [] 3 \<noteq> Inr (Analysis [] [] Undetermined)"
  by (simp add: main_def)

text \<open>
  Claim C6, amended. With no timestamp from any source the run reports "no activity
  data" and stops; a run that goes on has a non-empty timeline, and reports an
  undetermined pattern whenever its period sequence is empty. The gap detector on the
  empty timeline returns the empty period sequence, and the summary of the empty period
  sequence is the undetermined pattern.
\<close>

theorem C6_empty_input:
  "main [] [] [] [] g = Inr NoActivityData
   \<and> (\<forall>timeline periods s.
         main recent chrome prefetch user_files g = Inr (Analysis timeline periods s) \<longrightarrow>
           timeline \<noteq> [] \<and> (periods = [] \<longrightarrow> s = Undetermined))
   \<and> find_sleep_periods [] g = Inr []
   \<and> select_summary [] = Inr Undetermined"
proof -
  have "timeline \<noteq> [] \<and> (periods = [] \<longrightarrow> s = Undetermined)"
    if "main recent chrome prefetch user_files g = Inr (Analysis timeline periods s)"
    for timeline periods s
  proof -
    let ?a = "recent @ chrome @ prefetch @ user_files"
    from that have ne: "?a \<noteq> []"
      unfolding main_eq Let_def by (auto split: if_splits)
    then have "sort ?a \<noteq> []"
      by (metis length_sort length_0_conv)
    then have "dedup_spec (sort ?a) \<noteq> []"
      by (rule dedup_spec_nonempty)
    moreover from that ne have "timeline = dedup_spec (sort ?a)"
      and "select_summary periods = Inr s"
      unfolding main_eq Let_def by (auto split: if_splits sum.splits)
    ultimately show ?thesis
      by (auto simp add: select_summary_eq)
  qed
  moreover have "main [] [] [] [] g = Inr NoActivityData"
    by (simp add: main_def)
  moreover have "find_sleep_periods [] g = Inr []"
    by (simp add: find_sleep_periods_def)
  moreover have "select_summary [] = Inr Undetermined"
    by (simp add: select_summary_def)
  ultimately show ?thesis by blast
qed

lemma run_no_gap:
  "main [28800000000] [] [28830000000] [] 3 = Inr (Analysis [28800000000] [] Undetermined)"
  by code_simp

theorem C6_empty_input_witness:
  "main [28800000000] [] [28830000000] [] 3 = Inr (Analysis [28800000000] [] Undetermined)
   \<and> [28800000000 :: int] \<noteq> []"
  using C6_empty_input [of 3 "[28800000000]" "[]" "[28830000000]" "[]"] run_no_gap
  by simp

end
